theory Spec2Isabelle
  imports Main "HOL-Library.Product_Lexorder"
begin

section \<open>Data model of \<open>ai_manager.py\<close>\<close>

text \<open>
  The development embeds \<open>SmartAIManager\<close> (file \<open>ai_manager.py\<close>): provider
  registry, model discovery and ranking, the retry loop \<open>_execute_with_fallback\<close>,
  the three request entry points and the per-user quota cache.

  Conventions of the embedding.
  \<^item> Python \<open>str\<close> is \<open>string\<close>; \<open>None\<close> is \<open>None\<close> of an option type; a raised
    exception is \<open>Inl msg\<close> where \<open>msg\<close> is \<open>str(e)\<close>.
  \<^item> The source's user-facing texts are Arabic with emoji. They are rendered here by
    English ASCII texts of the same role; none of them contains one of the keywords the
    error classification searches for, as is the case for the originals.
  \<^item> Mutable objects are fields of one state record that every operation returns
    updated. A \<open>ProviderConfig\<close> object is identified by its \<open>Provider\<close> key, so the
    list of configurations handed to a loop and the registry alias the same objects.
  \<^item> What collaborators do (SDK and HTTP calls, the durable store, environment variables)
    is read from an environment record: the embedding is a function of those outcomes.
\<close>

datatype ServiceType = CHAT | IMAGE | VIDEO

datatype Provider = GOOGLE | OPENAI | STABILITY | LUMA | KLING

fun service_value :: "ServiceType \<Rightarrow> string" where
  "service_value CHAT = ''chat''"
| "service_value IMAGE = ''image''"
| "service_value VIDEO = ''video''"

fun provider_value :: "Provider \<Rightarrow> string" where
  "provider_value GOOGLE = ''google''"
| "provider_value OPENAI = ''openai''"
| "provider_value STABILITY = ''stability''"
| "provider_value LUMA = ''luma''"
| "provider_value KLING = ''kling''"

text \<open>\<open>ModelInfo\<close>: the fields the engine reads (the other dataclass fields keep their
  defaults and are never read).\<close>

record ModelInfo =
  name :: string
  provider :: Provider
  service_type :: ServiceType
  version :: string
  is_latest :: bool
  priority :: int

text \<open>\<open>ProviderConfig\<close>. \<open>discovered_models\<close> and \<open>active_models\<close> are dictionaries keyed
  by service type; both start empty.\<close>

record ProviderConfig =
  cfg_name :: Provider
  api_key :: "string option"
  enabled :: bool
  daily_limit :: int
  usage_today :: int
  errors_today :: int
  last_error :: "string option"
  discovered_models :: "ServiceType \<rightharpoonup> ModelInfo list"
  active_models :: "ServiceType \<rightharpoonup> string"

text \<open>What a backend SDK or HTTP request ends with, before the wrapper of the source
  turns it into a return value or an exception.\<close>

datatype Outcome = Reply string | TimedOut | ConnFailed string | Failed string

text \<open>Events of a run: \<open>Attempt p st m\<close> is one execution of
  \<open>result = await execute_func(current_model)\<close> inside \<open>_execute_with_fallback\<close> for
  provider \<open>p\<close>; \<open>Remote p m\<close> is one request sent to the API of backend \<open>p\<close>.\<close>

datatype Event = Attempt Provider ServiceType string | Remote Provider string

text \<open>Key of the quota cache and of the \<open>ai_usage\<close> table: the source formats
  \<open>f"{user_id}_{today}_{service_type}"\<close>, which determines the three parts (neither a
  decimal integer nor a \<open>%Y-%m-%d\<close> date contains an underscore).\<close>

type_synonym cache_key = "int \<times> string \<times> string"

record State =
  providers :: "Provider \<Rightarrow> ProviderConfig"
  discovery_completed :: bool
  user_limits_cache :: "(cache_key \<times> int) list"
  db_usage :: "cache_key \<rightharpoonup> int"
  trace :: "Event list"

text \<open>The environment: configuration variables and the behaviour of collaborators.
  \<open>remote\<close> answers a request to a backend as a function of everything that happened
  before it. \<open>db_down\<close> is the exception of the durable store's connection, if it
  raises one; \<open>db_save_error\<close> the exception of its \<open>save_...\<close> methods (the module
  \<open>database\<close> is not part of the sources). \<open>fault\<close> injects an exception into the body of
  \<open>_setup_and_discover_async\<close> before its step of that number.\<close>

record Env =
  api_key_env :: "Provider \<Rightarrow> string option"
  daily_limit_env :: "Provider \<Rightarrow> int option"
  daily_ai_limit :: "int option"
  daily_image_limit :: "int option"
  daily_video_limit :: "int option"
  google_configure :: "string option"
  google_list_models :: "string + string list"
  openai_client :: "string option"
  fault :: "nat option"
  db_down :: "string option"
  db_save_error :: "string option"
  remote :: "Event list \<Rightarrow> Provider \<Rightarrow> string \<Rightarrow> Outcome"

section \<open>Strings\<close>

text \<open>\<open>str.lower()\<close> on the ASCII letters; other characters are left as they are.\<close>

definition lower_char :: "char \<Rightarrow> char" where
  "lower_char c = (let n = (of_char c :: nat) in
     if 65 \<le> n \<and> n \<le> 90 then char_of (n + 32) else c)"

definition lower :: "string \<Rightarrow> string" where
  "lower s = map lower_char s"

fun startswith :: "string \<Rightarrow> string \<Rightarrow> bool" where
  "startswith s [] = True"
| "startswith [] (p # ps) = False"
| "startswith (c # cs) (p # ps) = (c = p \<and> startswith cs ps)"

text \<open>\<open>sub in s\<close> for strings.\<close>

fun contains :: "string \<Rightarrow> string \<Rightarrow> bool" where
  "contains sub [] = (sub = [])"
| "contains sub (c # cs) = (startswith (c # cs) sub \<or> contains sub cs)"

text \<open>\<open>str.isspace\<close> for one character and \<open>str.strip()\<close>.\<close>

definition isspace :: "char \<Rightarrow> bool" where
  "isspace c = (let n = (of_char c :: nat) in
     (9 \<le> n \<and> n \<le> 13) \<or> (28 \<le> n \<and> n \<le> 32) \<or> n = 133 \<or> n = 160)"

definition strip :: "string \<Rightarrow> string" where
  "strip s = rev (dropWhile isspace (rev (dropWhile isspace s)))"

text \<open>Truthiness of an optional string: \<open>None\<close> and \<open>""\<close> are falsy.\<close>

fun truthy :: "string option \<Rightarrow> bool" where
  "truthy None = False"
| "truthy (Some s) = (s \<noteq> [])"

text \<open>\<open>str(n)\<close> for a natural number.\<close>

definition digit_char :: "nat \<Rightarrow> char" where
  "digit_char d = char_of (48 + d)"

fun show_nat :: "nat \<Rightarrow> string" where
  "show_nat n =
     (if n < 10 then [digit_char n] else show_nat (n div 10) @ [digit_char (n mod 10)])"

section \<open>Model rotation and the retry loop\<close>

definition get_active_model :: "State \<Rightarrow> Provider \<Rightarrow> ServiceType \<Rightarrow> string option" where
  "get_active_model s p st =
     (let config = providers s p in
      if \<not> enabled config then None else active_models config st)"

text \<open>The index loop of \<open>rotate_model\<close>: the name after the first entry called
  \<open>current\<close>, the first name of the whole list when that entry is the last one.\<close>

fun next_after :: "string \<Rightarrow> string \<Rightarrow> ModelInfo list \<Rightarrow> string" where
  "next_after first_name current [] = first_name"
| "next_after first_name current (m # ms) =
     (if name m = current
      then (case ms of [] \<Rightarrow> first_name | m' # _ \<Rightarrow> name m')
      else next_after first_name current ms)"

definition set_active :: "Provider \<Rightarrow> ServiceType \<Rightarrow> string \<Rightarrow> State \<Rightarrow> State" where
  "set_active p st m s =
     s\<lparr>providers := (providers s)
        (p := (providers s p)\<lparr>active_models := (active_models (providers s p))(st \<mapsto> m)\<rparr>)\<rparr>"

definition rotate_model ::
  "Provider \<Rightarrow> ServiceType \<Rightarrow> string option \<Rightarrow> State \<Rightarrow> string option \<times> State" where
  "rotate_model p st current_model s =
     (case discovered_models (providers s p) st of
        None \<Rightarrow> (None, s)
      | Some models \<Rightarrow>
          (case models of
             [] \<Rightarrow> (None, s)
           | m0 # _ \<Rightarrow>
               (let new_model =
                      (if \<not> truthy current_model \<or> the current_model \<notin> set (map name models)
                       then name m0
                       else next_after (name m0) (the current_model) models)
                in (Some new_model, set_active p st new_model s))))"

definition quota_keywords :: "string list" where
  "quota_keywords = [''429'', ''quota'', ''rate limit'', ''resource exhausted'']"

definition model_keywords :: "string list" where
  "model_keywords = [''404'', ''not found'', ''invalid model'', ''model not found'']"

definition is_quota_error :: "string \<Rightarrow> bool" where
  "is_quota_error error_msg = list_ex (\<lambda>keyword. contains keyword (lower error_msg)) quota_keywords"

definition is_model_error :: "string \<Rightarrow> bool" where
  "is_model_error error_msg = list_ex (\<lambda>keyword. contains keyword (lower error_msg)) model_keywords"

definition msg_provider_disabled :: "Provider \<Rightarrow> string" where
  "msg_provider_disabled p = ''provider '' @ provider_value p @ '' is disabled''"

definition msg_no_models :: "ServiceType \<Rightarrow> string" where
  "msg_no_models st = ''there are no models for '' @ service_value st"

definition msg_all_attempts_failed :: "Provider \<Rightarrow> nat \<Rightarrow> string" where
  "msg_all_attempts_failed p max_retries =
     ''all attempts of '' @ provider_value p @ '' failed ('' @ show_nat max_retries @ '' attempts)''"

type_synonym executor = "string \<Rightarrow> State \<Rightarrow> (string + string) \<times> State"

text \<open>The body of the \<open>try\<close> of one iteration. It gives the value of \<open>current_model\<close>
  at the end together with what happened: \<open>Inr\<close> the result of \<open>execute_func\<close>,
  \<open>Inl\<close> the text of the exception.\<close>

definition try_attempt ::
  "executor \<Rightarrow> Provider \<Rightarrow> ServiceType \<Rightarrow> string option \<Rightarrow> State
     \<Rightarrow> (string + string) \<times> string option \<times> State" where
  "try_attempt execute_func p st current_model s =
     (if \<not> truthy current_model then
        (case (case discovered_models (providers s p) st of None \<Rightarrow> [] | Some ms \<Rightarrow> ms) of
           [] \<Rightarrow> (Inl (msg_no_models st), current_model, s)
         | m0 # _ \<Rightarrow>
             (let s1 = set_active p st (name m0) s;
                  s2 = s1\<lparr>trace := trace s1 @ [Attempt p st (name m0)]\<rparr>
              in (case execute_func (name m0) s2 of (r, s3) \<Rightarrow> (r, Some (name m0), s3))))
      else
        (let s2 = s\<lparr>trace := trace s @ [Attempt p st (the current_model)]\<rparr>
         in (case execute_func (the current_model) s2 of (r, s3) \<Rightarrow> (r, current_model, s3))))"

text \<open>\<open>for attempt in range(max_retries)\<close>: the fourth argument counts the iterations
  still to run. Leaving the loop, by \<open>break\<close> or at its end, raises the final exception.\<close>

fun attempt_loop ::
  "executor \<Rightarrow> Provider \<Rightarrow> ServiceType \<Rightarrow> nat \<Rightarrow> nat \<Rightarrow> string option \<Rightarrow> State
     \<Rightarrow> (string + string) \<times> State" where
  "attempt_loop execute_func p st max_retries 0 current_model s =
     (Inl (msg_all_attempts_failed p max_retries), s)"
| "attempt_loop execute_func p st max_retries (Suc n) current_model s =
     (case try_attempt execute_func p st current_model s of
        (Inr result, _, s1) \<Rightarrow> (Inr result, s1)
      | (Inl error_msg, current_model1, s1) \<Rightarrow>
          (if is_quota_error error_msg \<or> is_model_error error_msg then
             (case rotate_model p st current_model1 s1 of
                (next_model, s2) \<Rightarrow>
                  (if truthy next_model \<and> next_model \<noteq> current_model1
                   then attempt_loop execute_func p st max_retries n next_model s2
                   else (Inl (msg_all_attempts_failed p max_retries), s2)))
           else (Inl (msg_all_attempts_failed p max_retries), s1)))"

definition execute_with_fallback ::
  "Provider \<Rightarrow> ServiceType \<Rightarrow> executor \<Rightarrow> nat \<Rightarrow> State \<Rightarrow> (string + string) \<times> State" where
  "execute_with_fallback p st execute_func max_retries s =
     (if \<not> enabled (providers s p) then (Inl (msg_provider_disabled p), s)
      else attempt_loop execute_func p st max_retries max_retries (get_active_model s p st) s)"


section \<open>Provider registry and discovery\<close>

fun default_daily_limit :: "Provider \<Rightarrow> int" where
  "default_daily_limit GOOGLE = 50"
| "default_daily_limit OPENAI = 30"
| "default_daily_limit STABILITY = 20"
| "default_daily_limit LUMA = 10"
| "default_daily_limit KLING = 5"

text \<open>\<open>ProviderConfig(name=..., api_key=os.getenv(...), daily_limit=int(os.getenv(..., default)))\<close>
  with the dataclass defaults for the other fields. The environment holds the limit
  already parsed.\<close>

definition new_config :: "Env \<Rightarrow> Provider \<Rightarrow> ProviderConfig" where
  "new_config env p =
     \<lparr>cfg_name = p, api_key = api_key_env env p, enabled = False,
      daily_limit = (case daily_limit_env env p of None \<Rightarrow> default_daily_limit p | Some n \<Rightarrow> n),
      usage_today = 0, errors_today = 0, last_error = None,
      discovered_models = Map.empty, active_models = Map.empty\<rparr>"

text \<open>The validation loop at the end of \<open>_init_providers\<close>.\<close>

definition validate_key :: "ProviderConfig \<Rightarrow> ProviderConfig" where
  "validate_key config =
     (if \<not> truthy (api_key config) \<or> strip (the (api_key config)) = [] then config\<lparr>enabled := False\<rparr>
      else if length (the (api_key config)) < 10 then config\<lparr>enabled := False\<rparr>
      else config)"

definition init_providers :: "Env \<Rightarrow> Provider \<Rightarrow> ProviderConfig" where
  "init_providers env = (\<lambda>p. validate_key (new_config env p))"

text \<open>\<open>SmartAIManager.__init__\<close>; the durable store \<open>db\<close> is handed in.\<close>

definition new_manager :: "Env \<Rightarrow> (cache_key \<rightharpoonup> int) \<Rightarrow> State" where
  "new_manager env db =
     \<lparr>providers = init_providers env, discovery_completed = False,
      user_limits_cache = [], db_usage = db, trace = []\<rparr>"

definition google_fallback_models :: "string list" where
  "google_fallback_models =
     [''nano-banana-pro-preview'', ''imagen-4.0-generate-preview-06-06'',
      ''imagen-3.0-generate-001'', ''gemini-2.5-flash'', ''gemini-2.5-pro'',
      ''gemini-3-flash-preview'', ''gemini-3-pro-preview'', ''gemini-2.0-flash'',
      ''veo-3.0-generate-001'']"

definition google_chat_rank :: "string \<Rightarrow> string \<times> int" where
  "google_chat_rank model_lower =
     (if contains ''gemini-3'' model_lower then (''3.0'', 10)
      else if contains ''gemini-2.5'' model_lower \<or> contains ''gemini-2-5'' model_lower then (''2.5'', 15)
      else if contains ''gemini-2.0'' model_lower \<or> contains ''gemini-2-0'' model_lower then (''2.0'', 20)
      else if contains ''gemini-1.5'' model_lower \<or> contains ''gemini-1-5'' model_lower then (''1.5'', 30)
      else if contains ''gemini-1.0'' model_lower \<or> contains ''gemini-1-0'' model_lower
              \<or> contains ''gemini-pro'' model_lower then (''1.0'', 40)
      else (''1.0'', 100))"

definition google_image_rank :: "string \<Rightarrow> int" where
  "google_image_rank model_lower =
     (if contains ''banana'' model_lower then 5
      else if contains ''imagen-4'' model_lower then 10
      else if contains ''imagen-3'' model_lower then 20
      else if contains ''imagen-2'' model_lower then 30
      else 50)"

definition analyze_google_model :: "string \<Rightarrow> ModelInfo option" where
  "analyze_google_model model_name =
     (let model_lower = lower model_name in
      if contains ''gemini'' model_lower \<and> \<not> contains ''tts'' model_lower then
        Some \<lparr>name = model_name, provider = GOOGLE, service_type = CHAT,
              version = fst (google_chat_rank model_lower),
              is_latest = contains ''latest'' model_lower,
              priority = snd (google_chat_rank model_lower)\<rparr>
      else if contains ''imagen'' model_lower \<or> contains ''banana'' model_lower then
        Some \<lparr>name = model_name, provider = GOOGLE, service_type = IMAGE, version = ''1.0'',
              is_latest = contains ''latest'' model_lower,
              priority = google_image_rank model_lower\<rparr>
      else if contains ''veo'' model_lower then
        Some \<lparr>name = model_name, provider = GOOGLE, service_type = VIDEO, version = ''1.0'',
              is_latest = contains ''latest'' model_lower,
              priority = (if contains ''veo'' model_lower then 10 else 100)\<rparr>
      else None)"

text \<open>The classification loop: every analysed model is appended to the list of its own
  service type, in the order of discovery. \<open>google_list_models\<close> holds the names as they
  are after \<open>m.name.replace('models/', '')\<close>; when the live query raises, the static
  list is used.\<close>

definition google_all_models :: "Env \<Rightarrow> string list" where
  "google_all_models env =
     (case google_list_models env of Inl e \<Rightarrow> google_fallback_models | Inr ms \<Rightarrow> ms)"

definition classified_google :: "Env \<Rightarrow> ServiceType \<Rightarrow> ModelInfo list" where
  "classified_google env st =
     filter (\<lambda>m. service_type m = st) (List.map_filter analyze_google_model (google_all_models env))"

definition set_config :: "Provider \<Rightarrow> ProviderConfig \<Rightarrow> State \<Rightarrow> State" where
  "set_config p config s = s\<lparr>providers := (providers s)(p := config)\<rparr>"

text \<open>\<open>_setup_and_discover_google\<close>. Without a key nothing happens. The test
  \<open>api_key.startswith("AI")\<close> only logs a warning. \<open>genai.configure\<close> may raise
  (\<open>google_configure = Some e\<close>), which the handler answers by disabling the backend;
  otherwise the backend is enabled, its models are classified and sorted, and the top
  chat model becomes the active one.\<close>

definition setup_and_discover_google :: "Env \<Rightarrow> State \<Rightarrow> State" where
  "setup_and_discover_google env s =
     (let google_config = providers s GOOGLE in
      if \<not> truthy (api_key google_config) then s
      else
        (case google_configure env of
           Some e \<Rightarrow> set_config GOOGLE (google_config\<lparr>enabled := False\<rparr>) s
         | None \<Rightarrow>
             (let sorted_models = (\<lambda>st. sort_key priority (classified_google env st));
                  config1 = google_config\<lparr>enabled := True,
                              discovered_models := (\<lambda>st. Some (sorted_models st))\<rparr>;
                  config2 = (case sorted_models CHAT of
                               [] \<Rightarrow> config1
                             | top_model # _ \<Rightarrow>
                                 config1\<lparr>active_models :=
                                   (active_models config1)(CHAT \<mapsto> name top_model)\<rparr>)
              in set_config GOOGLE config2 s)))"

definition analyze_openai_model :: "string \<Rightarrow> ServiceType \<Rightarrow> ModelInfo option" where
  "analyze_openai_model model_name st =
     (let model_lower = lower model_name;
          mk = (\<lambda>v pr. Some \<lparr>name = model_name, provider = OPENAI, service_type = st,
                              version = v, is_latest = False, priority = pr\<rparr>)
      in case st of
           CHAT \<Rightarrow>
             (if contains ''gpt-4o'' model_lower
                then mk ''4.0'' (if contains ''mini'' model_lower then 5 else 10)
              else if contains ''gpt-4-turbo'' model_lower then mk ''4.0'' 15
              else if contains ''gpt-4'' model_lower then mk ''4.0'' 20
              else if contains ''gpt-3.5-turbo'' model_lower
                then mk ''3.5'' (if contains ''instruct'' model_lower then 30 else 25)
              else None)
         | IMAGE \<Rightarrow>
             (if contains ''dall-e-3'' model_lower then mk ''3.0'' 5
              else if contains ''dall-e-2'' model_lower then mk ''2.0'' 10
              else None)
         | VIDEO \<Rightarrow> mk ''1.0'' 100)"

fun known_openai_models :: "ServiceType \<Rightarrow> string list" where
  "known_openai_models CHAT =
     [''gpt-4o'', ''gpt-4o-mini'', ''gpt-4-turbo'', ''gpt-4'', ''gpt-3.5-turbo'',
      ''gpt-3.5-turbo-instruct'']"
| "known_openai_models IMAGE = [''dall-e-3'', ''dall-e-2'']"
| "known_openai_models VIDEO = []"

definition classified_openai :: "ServiceType \<Rightarrow> ModelInfo list" where
  "classified_openai st =
     List.map_filter (\<lambda>model_name. analyze_openai_model model_name st) (known_openai_models st)"

text \<open>\<open>_setup_and_discover_openai\<close>, likewise: the test
  \<open>api_key.startswith("sk-")\<close> only logs a warning, the client's constructor may raise
  (\<open>openai_client = Some e\<close>), and the known models are classified and sorted. No
  active model is set here.\<close>

definition setup_and_discover_openai :: "Env \<Rightarrow> State \<Rightarrow> State" where
  "setup_and_discover_openai env s =
     (let openai_config = providers s OPENAI in
      if \<not> truthy (api_key openai_config) then s
      else
        (case openai_client env of
           Some e \<Rightarrow> set_config OPENAI (openai_config\<lparr>enabled := False\<rparr>) s
         | None \<Rightarrow>
             set_config OPENAI
               (openai_config\<lparr>enabled := True,
                  discovered_models := (\<lambda>st. Some (sort_key priority (classified_openai st)))\<rparr>) s))"

text \<open>\<open>_setup_other_apis\<close>: Stability, Luma and Kling are enabled when their key has
  more than 20 characters. No models are discovered for them.\<close>

definition setup_other :: "Provider \<Rightarrow> State \<Rightarrow> State" where
  "setup_other p s =
     (let config = providers s p in
      if truthy (api_key config) \<and> length (the (api_key config)) > 20
      then set_config p (config\<lparr>enabled := True\<rparr>) s else s)"

definition setup_other_apis :: "State \<Rightarrow> State" where
  "setup_other_apis s = setup_other KLING (setup_other LUMA (setup_other STABILITY s))"

text \<open>\<open>_log_discovery_results\<close> only writes to the log.\<close>

definition log_discovery_results :: "State \<Rightarrow> State" where
  "log_discovery_results s = s"

text \<open>\<open>min(models, key=lambda x: x.priority)\<close>: the first entry of least priority.\<close>

fun min_by_priority :: "ModelInfo \<Rightarrow> ModelInfo list \<Rightarrow> ModelInfo" where
  "min_by_priority best [] = best"
| "min_by_priority best (m # ms) =
     min_by_priority (if priority m < priority best then m else best) ms"

definition select_best :: "ProviderConfig \<Rightarrow> ProviderConfig" where
  "select_best config =
     (if \<not> enabled config then config
      else config\<lparr>active_models :=
             (\<lambda>st. case discovered_models config st of
                      None \<Rightarrow> active_models config st
                    | Some [] \<Rightarrow> active_models config st
                    | Some (m # ms) \<Rightarrow> Some (name (min_by_priority m ms)))\<rparr>)"

definition select_best_models :: "State \<Rightarrow> State" where
  "select_best_models s = s\<lparr>providers := (\<lambda>p. select_best (providers s p))\<rparr>"

text \<open>The body of the \<open>try\<close> of \<open>_setup_and_discover_async\<close>, step by step. An
  exception before step \<open>k\<close> (\<open>fault = Some k\<close>) skips the rest of the body; the handler
  logs it and the function returns normally.\<close>

fun run_steps :: "nat option \<Rightarrow> nat \<Rightarrow> (State \<Rightarrow> State) list \<Rightarrow> State \<Rightarrow> State" where
  "run_steps flt k [] s = s"
| "run_steps flt k (step # steps) s =
     (if flt = Some k then s else run_steps flt (Suc k) steps (step s))"

definition setup_and_discover_async :: "Env \<Rightarrow> State \<Rightarrow> State" where
  "setup_and_discover_async env s =
     run_steps (fault env) 0
       [setup_and_discover_google env, setup_and_discover_openai env, setup_other_apis,
        log_discovery_results, select_best_models] s"

definition ensure_discovery :: "Env \<Rightarrow> State \<Rightarrow> State" where
  "ensure_discovery env s =
     (if \<not> discovery_completed s
      then (setup_and_discover_async env s)\<lparr>discovery_completed := True\<rparr>
      else s)"

section \<open>Provider selection\<close>

text \<open>Insertion order of the \<open>providers\<close> dictionary.\<close>

definition provider_order :: "Provider list" where
  "provider_order = [GOOGLE, OPENAI, STABILITY, LUMA, KLING]"

fun serving :: "ServiceType \<Rightarrow> Provider list" where
  "serving CHAT = [GOOGLE, OPENAI]"
| "serving IMAGE = [GOOGLE, OPENAI, STABILITY]"
| "serving VIDEO = [GOOGLE, LUMA, KLING]"

definition is_available :: "ServiceType \<Rightarrow> ProviderConfig \<Rightarrow> bool" where
  "is_available st config =
     (\<not> (\<not> enabled config \<or> usage_today config \<ge> daily_limit config)
      \<and> cfg_name config \<in> set (serving st))"

definition get_available_providers :: "State \<Rightarrow> ServiceType \<Rightarrow> ProviderConfig list" where
  "get_available_providers s st =
     sort_key (\<lambda>x. (errors_today x, usage_today x))
       (filter (is_available st) (map (providers s) provider_order))"


section \<open>Per-user quota\<close>

text \<open>The quota cache is an \<open>OrderedDict\<close>: an association list, oldest entry first.
  Assignment keeps the place of a key that is present and appends a new one.\<close>

fun od_set :: "cache_key \<Rightarrow> int \<Rightarrow> (cache_key \<times> int) list \<Rightarrow> (cache_key \<times> int) list" where
  "od_set k v [] = [(k, v)]"
| "od_set k v (e # es) = (if fst e = k then (k, v) # es else e # od_set k v es)"

definition move_to_end :: "cache_key \<Rightarrow> (cache_key \<times> int) list \<Rightarrow> (cache_key \<times> int) list" where
  "move_to_end k cache =
     (case map_of cache k of
        None \<Rightarrow> cache
      | Some v \<Rightarrow> filter (\<lambda>e. fst e \<noteq> k) cache @ [(k, v)])"

definition max_cache_size :: nat where
  "max_cache_size = 1000"

definition env_limit :: "int \<Rightarrow> int option \<Rightarrow> int" where
  "env_limit dflt v = (case v of None \<Rightarrow> dflt | Some n \<Rightarrow> n)"

text \<open>\<open>limits_config.get(service_type, 20)\<close>.\<close>

definition user_limit :: "Env \<Rightarrow> string \<Rightarrow> int" where
  "user_limit env svc =
     (case map_of [(''ai_chat'', env_limit 20 (daily_ai_limit env)),
                   (''image_gen'', env_limit 5 (daily_image_limit env)),
                   (''video_gen'', env_limit 2 (daily_video_limit env))] svc of
        None \<Rightarrow> 20
      | Some l \<Rightarrow> l)"

text \<open>\<open>check_user_limit\<close>. \<open>db_down = Some e\<close>: opening the connection or the query
  raises \<open>e\<close>; the handler answers \<open>(True, 999)\<close> and the cache is as it was.\<close>

definition check_user_limit ::
  "Env \<Rightarrow> int \<Rightarrow> string \<Rightarrow> string \<Rightarrow> State \<Rightarrow> (bool \<times> int) \<times> State" where
  "check_user_limit env user_id today svc s =
     (let cache_key = (user_id, today, svc);
          cache = user_limits_cache s;
          looked_up =
            (case map_of cache cache_key of
               Some current_usage \<Rightarrow> Inr (current_usage, move_to_end cache_key cache)
             | None \<Rightarrow>
                 (case db_down env of
                    Some e \<Rightarrow> Inl e
                  | None \<Rightarrow>
                      (let current_usage = (case db_usage s cache_key of None \<Rightarrow> 0 | Some c \<Rightarrow> c)
                       in Inr (current_usage, od_set cache_key current_usage cache))))
      in case looked_up of
           Inl e \<Rightarrow> ((True, 999), s)
         | Inr (current_usage, cache1) \<Rightarrow>
             (let cache2 = (if length cache1 > max_cache_size then tl cache1 else cache1);
                  limit = user_limit env svc
              in ((if current_usage \<ge> limit then (False, 0) else (True, limit - current_usage)),
                  s\<lparr>user_limits_cache := cache2\<rparr>)))"

text \<open>\<open>update_user_usage\<close>: the cache is written first, then the table; an exception of
  the store is caught and the call returns \<open>False\<close>.\<close>

definition update_user_usage ::
  "Env \<Rightarrow> int \<Rightarrow> string \<Rightarrow> string \<Rightarrow> State \<Rightarrow> bool \<times> State" where
  "update_user_usage env user_id today svc s =
     (let cache_key = (user_id, today, svc);
          current = (case map_of (user_limits_cache s) cache_key of None \<Rightarrow> 0 | Some c \<Rightarrow> c);
          s1 = s\<lparr>user_limits_cache := od_set cache_key (current + 1) (user_limits_cache s)\<rparr>
      in case db_down env of
           Some e \<Rightarrow> (False, s1)
         | None \<Rightarrow>
             (True, s1\<lparr>db_usage := (db_usage s1)
                        (cache_key \<mapsto> (case db_usage s1 cache_key of None \<Rightarrow> 1 | Some c \<Rightarrow> c + 1))\<rparr>))"


section \<open>Backend calls\<close>

text \<open>One request to the API of backend \<open>api\<close>. Requests that name no model
  (Stability, Luma) are recorded with the empty name; the polling of a Luma generation
  counts as one request.\<close>

definition remote_call :: "Env \<Rightarrow> Provider \<Rightarrow> string \<Rightarrow> State \<Rightarrow> Outcome \<times> State" where
  "remote_call env api m s = (remote env (trace s) api m, s\<lparr>trace := trace s @ [Remote api m]\<rparr>)"

definition msg_empty_reply :: string where
  "msg_empty_reply = ''empty reply from Google''"

definition msg_timeout :: "string \<Rightarrow> string" where
  "msg_timeout who = ''timed out waiting for '' @ who"

definition msg_wait_video :: string where
  "msg_wait_video = ''timed out waiting for the video (100 seconds)''"

definition msg_no_predictions :: string where
  "msg_no_predictions = ''no predictions received (Empty Response)''"

definition msg_no_images :: string where
  "msg_no_images = ''no images in the Stability response''"

definition msg_unsupported :: "Provider \<Rightarrow> string" where
  "msg_unsupported p = ''unsupported provider: '' @ provider_value p"

definition msg_veo_unavailable :: string where
  "msg_veo_unavailable = ''Google Veo is unavailable for now''"

definition msg_kling_unavailable :: string where
  "msg_kling_unavailable = ''Kling AI is unavailable for now''"

text \<open>\<open>_chat_with_google\<close>; \<open>Reply\<close> carries the text after \<open>_clean_response\<close>. The
  chat session kept per user does not influence what is returned or raised.\<close>

definition chat_with_google :: "Env \<Rightarrow> executor" where
  "chat_with_google env model_name s =
     (case remote_call env GOOGLE model_name s of
        (Reply text, s1) \<Rightarrow>
          (if text \<noteq> [] then (Inr text, s1)
           else (Inl (''Google Gemini error: '' @ msg_empty_reply), s1))
      | (TimedOut, s1) \<Rightarrow> (Inl (msg_timeout ''Google''), s1)
      | (ConnFailed e, s1) \<Rightarrow> (Inl (''Google Gemini error: '' @ e), s1)
      | (Failed e, s1) \<Rightarrow> (Inl (''Google Gemini error: '' @ e), s1))"

definition chat_with_openai :: "Env \<Rightarrow> executor" where
  "chat_with_openai env model_name s =
     (case remote_call env OPENAI model_name s of
        (Reply text, s1) \<Rightarrow> (Inr text, s1)
      | (TimedOut, s1) \<Rightarrow> (Inl (msg_timeout ''OpenAI''), s1)
      | (ConnFailed e, s1) \<Rightarrow> (Inl (''OpenAI error: '' @ e), s1)
      | (Failed e, s1) \<Rightarrow> (Inl (''OpenAI error: '' @ e), s1))"

text \<open>\<open>_generate_image_google\<close> re-raises what it catches; \<open>Reply\<close> carries the name of
  the file written, empty when the response holds no prediction.\<close>

definition generate_image_google :: "Env \<Rightarrow> executor" where
  "generate_image_google env model_name s =
     (case remote_call env GOOGLE model_name s of
        (Reply file, s1) \<Rightarrow>
          (if file \<noteq> [] then (Inr file, s1) else (Inl msg_no_predictions, s1))
      | (TimedOut, s1) \<Rightarrow> (Inl [], s1)
      | (ConnFailed e, s1) \<Rightarrow> (Inl e, s1)
      | (Failed e, s1) \<Rightarrow> (Inl e, s1))"

definition generate_image_openai :: "Env \<Rightarrow> executor" where
  "generate_image_openai env model_name s =
     (case remote_call env OPENAI model_name s of
        (Reply url, s1) \<Rightarrow> (Inr url, s1)
      | (TimedOut, s1) \<Rightarrow> (Inl (msg_timeout ''DALL-E''), s1)
      | (ConnFailed e, s1) \<Rightarrow> (Inl (''DALL-E error: '' @ e), s1)
      | (Failed e, s1) \<Rightarrow> (Inl (''DALL-E error: '' @ e), s1))"

definition generate_image_stability :: "Env \<Rightarrow> State \<Rightarrow> (string + string) \<times> State" where
  "generate_image_stability env s =
     (case remote_call env STABILITY [] s of
        (Reply image_data, s1) \<Rightarrow>
          (if image_data \<noteq> [] then (Inr (''data:image/png;base64,'' @ image_data), s1)
           else (Inl (''Stability AI error: '' @ msg_no_images), s1))
      | (TimedOut, s1) \<Rightarrow> (Inl ''Stability AI error: '', s1)
      | (ConnFailed e, s1) \<Rightarrow> (Inl (''Stability AI connection error: '' @ e), s1)
      | (Failed e, s1) \<Rightarrow> (Inl (''Stability AI error: '' @ e), s1))"

definition generate_video_luma :: "Env \<Rightarrow> State \<Rightarrow> (string + string) \<times> State" where
  "generate_video_luma env s =
     (case remote_call env LUMA [] s of
        (Reply video_url, s1) \<Rightarrow>
          (if video_url \<noteq> [] then (Inr video_url, s1)
           else (Inl (''Luma AI error: '' @ msg_wait_video), s1))
      | (TimedOut, s1) \<Rightarrow> (Inl ''Luma AI error: '', s1)
      | (ConnFailed e, s1) \<Rightarrow> (Inl (''Luma AI connection error: '' @ e), s1)
      | (Failed e, s1) \<Rightarrow> (Inl (''Luma AI error: '' @ e), s1))"

text \<open>\<open>_generate_video_google\<close> and \<open>_generate_video_kling\<close> hand the request to Luma
  when Luma is enabled and raise otherwise.\<close>

definition generate_video_google :: "Env \<Rightarrow> executor" where
  "generate_video_google env model_name s =
     (if enabled (providers s LUMA) then generate_video_luma env s
      else (Inl msg_veo_unavailable, s))"

definition generate_video_kling :: "Env \<Rightarrow> State \<Rightarrow> (string + string) \<times> State" where
  "generate_video_kling env s =
     (if enabled (providers s LUMA) then generate_video_luma env s
      else (Inl msg_kling_unavailable, s))"

text \<open>The closures \<open>execute_chat\<close>, \<open>execute_image\<close> and \<open>execute_video\<close> of the
  entry points, for the provider of the current iteration.\<close>

definition execute_chat :: "Env \<Rightarrow> Provider \<Rightarrow> executor" where
  "execute_chat env p model_name s =
     (if p = GOOGLE then chat_with_google env model_name s
      else if p = OPENAI then chat_with_openai env model_name s
      else (Inl (msg_unsupported p), s))"

definition execute_image :: "Env \<Rightarrow> Provider \<Rightarrow> executor" where
  "execute_image env p model_name s =
     (if p = GOOGLE then generate_image_google env model_name s
      else if p = OPENAI then generate_image_openai env model_name s
      else if p = STABILITY then generate_image_stability env s
      else (Inl (msg_unsupported p), s))"

definition execute_video :: "Env \<Rightarrow> Provider \<Rightarrow> executor" where
  "execute_video env p model_name s =
     (if p = GOOGLE then generate_video_google env model_name s
      else if p = LUMA then generate_video_luma env s
      else if p = KLING then generate_video_kling env s
      else (Inl (msg_unsupported p), s))"

fun execute :: "Env \<Rightarrow> ServiceType \<Rightarrow> Provider \<Rightarrow> executor" where
  "execute env CHAT p = execute_chat env p"
| "execute env IMAGE p = execute_image env p"
| "execute env VIDEO p = execute_video env p"

text \<open>\<open>_enhance_image_prompt\<close> and \<open>_enhance_video_prompt\<close> ask Google's active chat
  model for a better prompt and swallow every failure; only the request itself is of
  interest here.\<close>

definition enhance_prompt :: "Env \<Rightarrow> State \<Rightarrow> State" where
  "enhance_prompt env s =
     (let google_config = providers s GOOGLE in
      if enabled google_config \<and> truthy (active_models google_config CHAT)
      then snd (remote_call env GOOGLE (the (active_models google_config CHAT)) s)
      else s)"


section \<open>Request entry points\<close>

definition show_int :: "int \<Rightarrow> string" where
  "show_int i = (if i < 0 then ''-'' @ show_nat (nat (- i)) else show_nat (nat i))"

text \<open>\<open>"\n".join(...)\<close>.\<close>

fun join_lines :: "string list \<Rightarrow> string" where
  "join_lines [] = []"
| "join_lines [x] = x"
| "join_lines (x # y # ys) = x @ [CHR 0x0A] @ join_lines (y # ys)"

fun quota_service :: "ServiceType \<Rightarrow> string" where
  "quota_service CHAT = ''ai_chat''"
| "quota_service IMAGE = ''image_gen''"
| "quota_service VIDEO = ''video_gen''"

text \<open>The \<open>max_retries\<close> each entry point passes to \<open>_execute_with_fallback\<close>, and the
  least length of the stripped input it accepts.\<close>

fun max_retries_of :: "ServiceType \<Rightarrow> nat" where
  "max_retries_of CHAT = 16"
| "max_retries_of IMAGE = 6"
| "max_retries_of VIDEO = 6"

fun min_length :: "ServiceType \<Rightarrow> nat" where
  "min_length CHAT = 1"
| "min_length IMAGE = 3"
| "min_length VIDEO = 5"

definition msg_invalid_user :: string where
  "msg_invalid_user = ''invalid user id''"

definition msg_too_short :: "ServiceType \<Rightarrow> string" where
  "msg_too_short st = ''the '' @ service_value st @ '' input is empty or too short''"

definition msg_quota :: "ServiceType \<Rightarrow> int \<Rightarrow> string" where
  "msg_quota st remaining =
     ''the daily '' @ service_value st @ '' allowance is used up ('' @ show_int remaining
       @ '' remaining)''"

definition msg_unavailable :: "ServiceType \<Rightarrow> string" where
  "msg_unavailable st = ''all '' @ service_value st @ '' services are unavailable''"

definition msg_failed :: "ServiceType \<Rightarrow> string" where
  "msg_failed st = ''all '' @ service_value st @ '' services failed:'' @ [CHR 0x0A]"

definition msg_unexpected :: string where
  "msg_unexpected = ''an unexpected error occurred''"

definition msg_success :: "ServiceType \<Rightarrow> string" where
  "msg_success st = ''the '' @ service_value st @ '' was created''"

definition summary :: "Provider \<Rightarrow> string \<Rightarrow> string" where
  "summary p error_msg = provider_value p @ '': '' @ take 100 error_msg"

text \<open>The handler of the loop over providers: \<open>errors_today += 1\<close> and
  \<open>last_error = error_msg\<close>; and the success path's \<open>usage_today += 1\<close>.\<close>

definition record_error :: "Provider \<Rightarrow> string \<Rightarrow> State \<Rightarrow> State" where
  "record_error p error_msg s =
     set_config p ((providers s p)\<lparr>errors_today := errors_today (providers s p) + 1,
                                    last_error := Some error_msg\<rparr>) s"

definition record_usage :: "Provider \<Rightarrow> State \<Rightarrow> State" where
  "record_usage p s =
     set_config p ((providers s p)\<lparr>usage_today := usage_today (providers s p) + 1\<rparr>) s"

text \<open>\<open>for provider_config in providers\<close> of the three entry points, which differ in
  the service type, the retry budget and the executor only. The result is the value the
  loop returned with, if it did, and the list \<open>errors\<close>. A falsy result of a provider
  moves on to the next one without touching a counter. After a success the usage is
  committed; an exception of the store's \<open>save_...\<close> call lands in the same handler as
  a failed provider.\<close>

fun providers_loop ::
  "Env \<Rightarrow> ServiceType \<Rightarrow> int \<Rightarrow> string \<Rightarrow> Provider list \<Rightarrow> string list \<Rightarrow> State
     \<Rightarrow> string option \<times> string list \<times> State" where
  "providers_loop env st user_id today [] errors s = (None, errors, s)"
| "providers_loop env st user_id today (p # ps) errors s =
     (case execute_with_fallback p st (execute env st p) (max_retries_of st) s of
        (Inr response, s1) \<Rightarrow>
          (if response \<noteq> [] then
             (let s2 = snd (update_user_usage env user_id today (quota_service st) s1);
                  s3 = record_usage p s2
              in case db_save_error env of
                   None \<Rightarrow> (Some response, errors, s3)
                 | Some e \<Rightarrow>
                     providers_loop env st user_id today ps (errors @ [summary p e])
                       (record_error p e s3))
           else providers_loop env st user_id today ps errors s1)
      | (Inl error_msg, s1) \<Rightarrow>
          providers_loop env st user_id today ps (errors @ [summary p error_msg])
            (record_error p error_msg s1))"

text \<open>The common body of \<open>chat_with_ai\<close>, \<open>generate_image\<close> and \<open>generate_video\<close>,
  in two parts. \<open>serve\<close> is what follows a quota check that allowed the request:
  provider selection, prompt enhancement (image and video), the loop, and the aggregated
  failure. \<open>request\<close> is the whole body: discovery, validation, quota check, \<open>serve\<close>.
  The result is the pair the image and video entry points return. None of the steps
  raises into the outer handler of the entry point, whose generic message therefore does
  not occur.\<close>

definition serve ::
  "Env \<Rightarrow> ServiceType \<Rightarrow> int \<Rightarrow> string \<Rightarrow> State \<Rightarrow> (string option \<times> string) \<times> State" where
  "serve env st user_id today s1 =
     (let available = get_available_providers s1 st in
      if available = [] then ((None, msg_unavailable st), s1)
      else
        (let s2 = (if st = CHAT then s1 else enhance_prompt env s1) in
         case providers_loop env st user_id today (map cfg_name available) [] s2 of
           (Some result, errors, s3) \<Rightarrow> ((Some result, msg_success st), s3)
         | (None, errors, s3) \<Rightarrow>
             (if errors \<noteq> []
              then ((None, msg_failed st @ join_lines (take 3 errors)), s3)
              else ((None, msg_unexpected), s3))))"

definition request ::
  "Env \<Rightarrow> ServiceType \<Rightarrow> int \<Rightarrow> string \<Rightarrow> string \<Rightarrow> State
     \<Rightarrow> (string option \<times> string) \<times> State" where
  "request env st user_id text today s0 =
     (let s = ensure_discovery env s0 in
      if user_id \<le> 0 then ((None, msg_invalid_user), s)
      else if text = [] \<or> length (strip text) < min_length st then ((None, msg_too_short st), s)
      else
        (case check_user_limit env user_id today (quota_service st) s of
           ((allowed, remaining), s1) \<Rightarrow>
             (if \<not> allowed then ((None, msg_quota st remaining), s1)
              else serve env st user_id today s1)))"

text \<open>\<open>chat_with_ai\<close> returns one string: the reply, or the failure text.\<close>

definition chat_with_ai :: "Env \<Rightarrow> int \<Rightarrow> string \<Rightarrow> string \<Rightarrow> State \<Rightarrow> string \<times> State" where
  "chat_with_ai env user_id message today s =
     (case request env CHAT user_id message today s of
        ((Some response, _), s') \<Rightarrow> (response, s')
      | ((None, failure), s') \<Rightarrow> (failure, s'))"


definition generate_video ::
  "Env \<Rightarrow> int \<Rightarrow> string \<Rightarrow> string \<Rightarrow> State \<Rightarrow> (string option \<times> string) \<times> State" where
  "generate_video env user_id prompt today s = request env VIDEO user_id prompt today s"


section \<open>Notions used by the properties\<close>

text \<open>The condition under which the handler of \<open>_execute_with_fallback\<close> rotates.\<close>

definition retryable :: "string \<Rightarrow> bool" where
  "retryable error_msg = (is_quota_error error_msg \<or> is_model_error error_msg)"

fun is_attempt_on :: "Provider \<Rightarrow> Event \<Rightarrow> bool" where
  "is_attempt_on p (Attempt q st m) = (q = p)"
| "is_attempt_on p (Remote q m) = False"

text \<open>How many times \<open>execute_func\<close> was run for provider \<open>p\<close>.\<close>

definition attempts_on :: "Provider \<Rightarrow> Event list \<Rightarrow> nat" where
  "attempts_on p tr = length (filter (is_attempt_on p) tr)"

text \<open>The events a run added to the trace.\<close>

definition new_events :: "State \<Rightarrow> State \<Rightarrow> Event list" where
  "new_events s s' = drop (length (trace s)) (trace s')"

text \<open>The ranked list of a provider for a service type, empty when there is none.\<close>

definition models_of :: "State \<Rightarrow> Provider \<Rightarrow> ServiceType \<Rightarrow> ModelInfo list" where
  "models_of s p st = (case discovered_models (providers s p) st of None \<Rightarrow> [] | Some ms \<Rightarrow> ms)"

text \<open>Every call of provider \<open>p\<close>'s executor fails with a text the handler takes for a
  quota or model error, whatever happened before the call. (The video executors of
  Google and Kling read Luma's \<open>enabled\<close> flag, which is kept as it is in \<open>s\<close>.)\<close>

definition always_fails_retryably :: "Env \<Rightarrow> ServiceType \<Rightarrow> Provider \<Rightarrow> State \<Rightarrow> bool" where
  "always_fails_retryably env st p s =
     (\<forall>m s'. enabled (providers s' LUMA) = enabled (providers s LUMA) \<longrightarrow>
        (\<exists>e. fst (execute env st p m s') = Inl e \<and> retryable e))"

text \<open>Each registry entry carries its own key as \<open>name\<close>.\<close>

definition well_formed :: "State \<Rightarrow> bool" where
  "well_formed s = (\<forall>p. cfg_name (providers s p) = p)"

text \<open>Two configurations that agree on everything but \<open>active_models\<close>.\<close>

definition same_but_active :: "ProviderConfig \<Rightarrow> ProviderConfig \<Rightarrow> bool" where
  "same_but_active c c' =
     (cfg_name c' = cfg_name c \<and> api_key c' = api_key c \<and> enabled c' = enabled c
      \<and> daily_limit c' = daily_limit c \<and> usage_today c' = usage_today c
      \<and> errors_today c' = errors_today c \<and> last_error c' = last_error c
      \<and> discovered_models c' = discovered_models c)"

text \<open>What a run of the retry loop for provider \<open>p\<close> and service type \<open>st\<close> may
  change: the active model of \<open>p\<close> for \<open>st\<close>, and the trace, which grows by attempts
  of \<open>p\<close> and by requests to enabled backends.\<close>

definition frame :: "Provider \<Rightarrow> ServiceType \<Rightarrow> State \<Rightarrow> State \<Rightarrow> bool" where
  "frame p st s s' =
     (discovery_completed s' = discovery_completed s \<and> user_limits_cache s' = user_limits_cache s
      \<and> db_usage s' = db_usage s
      \<and> (\<forall>q. q \<noteq> p \<longrightarrow> providers s' q = providers s q)
      \<and> same_but_active (providers s p) (providers s' p)
      \<and> (\<forall>st'. st' \<noteq> st \<longrightarrow> active_models (providers s' p) st' = active_models (providers s p) st')
      \<and> (\<exists>evs. trace s' = trace s @ evs \<and>
            (\<forall>ev\<in>set evs. (\<exists>m. ev = Attempt p st m)
                \<or> (\<exists>api m. ev = Remote api m \<and> enabled (providers s api)))))"

text \<open>The model one iteration of the retry loop runs, and the state in which it calls
  the executor: the current model, or the top of the ranked list (which then becomes
  the active model) when there is no current model.\<close>

definition run_model :: "string option \<Rightarrow> ModelInfo list \<Rightarrow> string" where
  "run_model cur ms = (if truthy cur then the cur else name (hd ms))"

definition run_state :: "Provider \<Rightarrow> ServiceType \<Rightarrow> string option \<Rightarrow> State \<Rightarrow> State" where
  "run_state p st cur s =
     (let m = run_model cur (models_of s p st);
          s1 = (if truthy cur then s else set_active p st m s)
      in s1\<lparr>trace := trace s1 @ [Attempt p st m]\<rparr>)"

section \<open>Concrete inputs\<close>

text \<open>A manager with a Google key only, whose live model query returns one chat model and
  whose every request is answered with a quota error.\<close>


fun google_key_only :: "Provider \<Rightarrow> string option" where
  "google_key_only GOOGLE = Some ''AIzaSyExampleKey0001''"
| "google_key_only OPENAI = None"
| "google_key_only STABILITY = None"
| "google_key_only LUMA = None"
| "google_key_only KLING = None"

definition no_limits :: "Provider \<Rightarrow> int option" where
  "no_limits p = None"

definition quota_remote :: "Event list \<Rightarrow> Provider \<Rightarrow> string \<Rightarrow> Outcome" where
  "quota_remote tr api m = Failed ''429 quota exceeded''"

definition c1_env :: Env where
  "c1_env = \<lparr>api_key_env = google_key_only, daily_limit_env = no_limits, daily_ai_limit = None,
     daily_image_limit = None, daily_video_limit = None, google_configure = None,
     google_list_models = Inr [''gemini-2.5-flash''], openai_client = None, fault = None,
     db_down = None, db_save_error = None, remote = quota_remote\<rparr>"

definition c1_state :: State where
  "c1_state = ensure_discovery c1_env (new_manager c1_env Map.empty)"

definition c1_model :: ModelInfo where
  "c1_model = \<lparr>name = ''gemini-2.5-flash'', provider = GOOGLE, service_type = CHAT,
     version = ''2.5'', is_latest = False, priority = 15\<rparr>"


definition c2_env :: Env where
  "c2_env = c1_env\<lparr>google_list_models := Inl ''the live query failed''\<rparr>"

definition c2_state :: State where
  "c2_state = ensure_discovery c2_env (new_manager c2_env Map.empty)"






definition stored :: "State \<Rightarrow> cache_key \<Rightarrow> int" where
  "stored s k = (case db_usage s k of None \<Rightarrow> 0 | Some c \<Rightarrow> c)"

definition quota_consistent :: "State \<Rightarrow> bool" where
  "quota_consistent s =
     (distinct (map fst (user_limits_cache s))
      \<and> (\<forall>k v. map_of (user_limits_cache s) k = Some v \<longrightarrow> v = stored s k))"









definition c10_env :: Env where
  "c10_env = c1_env\<lparr>db_down := Some ''database is locked''\<rparr>"

fun discovery_order :: "Env \<Rightarrow> Provider \<Rightarrow> ServiceType \<Rightarrow> ModelInfo list" where
  "discovery_order env GOOGLE st = classified_google env st"
| "discovery_order env OPENAI st = classified_openai st"
| "discovery_order env STABILITY st = []"
| "discovery_order env LUMA st = []"
| "discovery_order env KLING st = []"

definition top_name :: "ModelInfo list \<Rightarrow> string option" where
  "top_name ms = (case ms of [] \<Rightarrow> None | m # _ \<Rightarrow> Some (name m))"

definition ranked :: "ModelInfo list \<Rightarrow> ModelInfo list" where
  "ranked ms = sort_key priority ms"


definition stays_disabled :: "Provider \<Rightarrow> State \<Rightarrow> bool" where
  "stays_disabled p s =
     (\<not> enabled (providers s p)
      \<and> (\<not> truthy (api_key (providers s p))
          \<or> (p \<in> {STABILITY, LUMA, KLING} \<and> length (the (api_key (providers s p))) \<le> 20)))"

fun unprefixed_keys :: "Provider \<Rightarrow> string option" where
  "unprefixed_keys GOOGLE = Some ''XXXXXXXXXXXX''"
| "unprefixed_keys OPENAI = Some ''YYYYYYYYYYYY''"
| "unprefixed_keys STABILITY = Some ''ZZZZZZZZZZZZ''"
| "unprefixed_keys LUMA = None"
| "unprefixed_keys KLING = Some []"

definition c4_env :: Env where
  "c4_env = c1_env\<lparr>api_key_env := unprefixed_keys\<rparr>"

definition c4_state :: State where
  "c4_state = ensure_discovery c4_env (new_manager c4_env Map.empty)"

section \<open>The retry loop: what it changes\<close>


declare show_nat.simps [simp del]

lemma snd_chat_with_google: "snd (chat_with_google env m s) = s\<lparr>trace := trace s @ [Remote GOOGLE m]\<rparr>"
  by (simp add: chat_with_google_def remote_call_def split: Outcome.splits)
lemma snd_chat_with_openai: "snd (chat_with_openai env m s) = s\<lparr>trace := trace s @ [Remote OPENAI m]\<rparr>"
  by (simp add: chat_with_openai_def remote_call_def split: Outcome.splits)
lemma snd_generate_image_google: "snd (generate_image_google env m s) = s\<lparr>trace := trace s @ [Remote GOOGLE m]\<rparr>"
  by (simp add: generate_image_google_def remote_call_def split: Outcome.splits)
lemma snd_generate_image_openai: "snd (generate_image_openai env m s) = s\<lparr>trace := trace s @ [Remote OPENAI m]\<rparr>"
  by (simp add: generate_image_openai_def remote_call_def split: Outcome.splits)
lemma snd_generate_image_stability: "snd (generate_image_stability env s) = s\<lparr>trace := trace s @ [Remote STABILITY []]\<rparr>"
  by (simp add: generate_image_stability_def remote_call_def split: Outcome.splits)
lemma snd_generate_video_luma: "snd (generate_video_luma env s) = s\<lparr>trace := trace s @ [Remote LUMA []]\<rparr>"
  by (simp add: generate_video_luma_def remote_call_def split: Outcome.splits)

lemmas snd_executors = snd_chat_with_google snd_chat_with_openai snd_generate_image_google
  snd_generate_image_openai snd_generate_image_stability snd_generate_video_luma

lemma execute_enabled_cases:
  assumes "enabled (providers s p)"
  shows "snd (execute env st p m s) = s \<or>
     (\<exists>api m'. enabled (providers s api) \<and> snd (execute env st p m s) = s\<lparr>trace := trace s @ [Remote api m']\<rparr>)"
proof (cases st)
  case CHAT
  then show ?thesis using assms by (auto simp: execute_chat_def snd_executors)
next
  case IMAGE
  then show ?thesis using assms by (auto simp: execute_image_def snd_executors)
next
  case VIDEO
  then show ?thesis using assms
    by (auto simp: execute_video_def generate_video_google_def generate_video_kling_def snd_executors)
qed



lemma frame_enabled: "frame p st s s' \<Longrightarrow> enabled (providers s' q) = enabled (providers s q)"
  unfolding frame_def same_but_active_def by (cases "q = p") auto

lemma frame_models: "frame p st s s' \<Longrightarrow> discovered_models (providers s' q) = discovered_models (providers s q)"
  unfolding frame_def same_but_active_def by (cases "q = p") auto

lemma frame_trans:
  assumes "frame p st s s1" "frame p st s1 s2"
  shows "frame p st s s2"
proof -
  from assms(1) obtain evs1 where e1: "trace s1 = trace s @ evs1"
    and p1: "\<forall>ev\<in>set evs1. (\<exists>m. ev = Attempt p st m) \<or> (\<exists>api m. ev = Remote api m \<and> enabled (providers s api))"
    unfolding frame_def by blast
  from assms(2) obtain evs2 where e2: "trace s2 = trace s1 @ evs2"
    and p2: "\<forall>ev\<in>set evs2. (\<exists>m. ev = Attempt p st m) \<or> (\<exists>api m. ev = Remote api m \<and> enabled (providers s1 api))"
    unfolding frame_def by blast
  have en: "\<And>q. enabled (providers s1 q) = enabled (providers s q)"
    using assms(1) by (rule frame_enabled)
  have tr: "trace s2 = trace s @ (evs1 @ evs2)" using e1 e2 by simp
  have pe: "\<forall>ev\<in>set (evs1 @ evs2). (\<exists>m. ev = Attempt p st m) \<or> (\<exists>api m. ev = Remote api m \<and> enabled (providers s api))"
    using p1 p2 en by auto
  have rest: "discovery_completed s2 = discovery_completed s \<and> user_limits_cache s2 = user_limits_cache s
      \<and> db_usage s2 = db_usage s
      \<and> (\<forall>q. q \<noteq> p \<longrightarrow> providers s2 q = providers s q)
      \<and> same_but_active (providers s p) (providers s2 p)
      \<and> (\<forall>st'. st' \<noteq> st \<longrightarrow> active_models (providers s2 p) st' = active_models (providers s p) st')"
    using assms unfolding frame_def same_but_active_def by simp
  show ?thesis unfolding frame_def using rest tr pe by blast
qed



lemma frame_execute:
  assumes "enabled (providers s p)"
  shows "frame p st s (snd (execute env st p m s))"
  using execute_enabled_cases [OF assms, of env st m]
  by (auto simp: frame_def same_but_active_def)








lemma attempts_on_append [simp]: "attempts_on p (xs @ ys) = attempts_on p xs + attempts_on p ys"
  by (simp add: attempts_on_def)



lemma try_attempt_run:
  assumes "truthy cur \<or> models_of s p st \<noteq> []"
  shows "try_attempt X p st cur s =
     (fst (X (run_model cur (models_of s p st)) (run_state p st cur s)),
      Some (run_model cur (models_of s p st)),
      snd (X (run_model cur (models_of s p st)) (run_state p st cur s)))"
proof (cases "truthy cur")
  case True
  then obtain c where "cur = Some c" by (cases cur) auto
  with True show ?thesis
    by (simp add: try_attempt_def run_model_def run_state_def Let_def split: prod.splits)
next
  case False
  with assms obtain m0 ms where ms: "models_of s p st = m0 # ms" by (cases "models_of s p st") auto
  then have "(case discovered_models (providers s p) st of None \<Rightarrow> [] | Some ms \<Rightarrow> ms) = m0 # ms"
    by (simp add: models_of_def)
  with False ms show ?thesis
    by (simp add: try_attempt_def run_model_def run_state_def Let_def split: prod.splits)
qed

lemma try_attempt_no_models:
  assumes "\<not> truthy cur" "models_of s p st = []"
  shows "try_attempt X p st cur s = (Inl (msg_no_models st), cur, s)"
  using assms by (auto simp: try_attempt_def models_of_def split: option.splits)




lemma trace_set_active [simp]: "trace (set_active p st m s) = trace s"
  by (simp add: set_active_def)

lemma providers_set_active_other: "q \<noteq> p \<Longrightarrow> providers (set_active p st m s) q = providers s q"
  by (simp add: set_active_def)

lemma enabled_set_active [simp]: "enabled (providers (set_active p st m s) q) = enabled (providers s q)"
  by (simp add: set_active_def)

lemma models_of_set_active [simp]: "models_of (set_active p st m s) q st' = models_of s q st'"
  by (simp add: set_active_def models_of_def)

lemma frame_models_of: "frame p st s s' \<Longrightarrow> models_of s' q st' = models_of s q st'"
  by (simp add: models_of_def frame_models)

lemma execute_cases:
  "snd (execute env st p m s) = s \<or>
     (\<exists>api m'. snd (execute env st p m s) = s\<lparr>trace := trace s @ [Remote api m']\<rparr>)"
proof (cases st)
  case CHAT
  then show ?thesis by (auto simp: execute_chat_def snd_executors)
next
  case IMAGE
  then show ?thesis by (auto simp: execute_image_def snd_executors)
next
  case VIDEO
  then show ?thesis
    by (auto simp: execute_video_def generate_video_google_def generate_video_kling_def snd_executors)
qed

lemma attempts_on_execute:
  "attempts_on q (trace (snd (execute env st p m s))) = attempts_on q (trace s)"
  using execute_cases [of env st p m s] by (auto simp: attempts_on_def)

lemma attempts_on_run_state:
  "attempts_on p (trace (run_state p st cur s)) = attempts_on p (trace s) + 1"
  by (simp add: run_state_def Let_def attempts_on_def)

lemma frame_run_state: "frame p st s (run_state p st cur s)"
  by (simp add: run_state_def Let_def frame_def same_but_active_def set_active_def)



section \<open>A ranked list of one model\<close>


lemma providers_execute [simp]: "providers (snd (execute env st p m s)) = providers s"
  using execute_cases [of env st p m s] by auto

lemma max_retries_pos: "\<exists>k. max_retries_of st = Suc k"
  by (cases st) (simp_all add: numeral_eq_Suc)

lemma rotate_model_single:
  assumes "models_of s p st = [m]" "name m \<noteq> []"
  shows "rotate_model p st (Some (name m)) s = (Some (name m), set_active p st (name m) s)"
proof -
  have "discovered_models (providers s p) st = Some [m]"
    using assms(1) by (auto simp: models_of_def split: option.splits)
  then show ?thesis using assms(2) by (simp add: rotate_model_def Let_def)
qed

text \<open>
  Claim C1, as amended. A backend whose ranked list for a capability holds exactly one
  model, that model being the active one (or none being active), and whose calls fail
  with a quota-style error: rotation returns that same model, and since the rotated
  model is not different from the current one the retry loop ends there. The backend
  is abandoned after exactly one attempt, whatever the budget.
\<close>

theorem single_model_one_attempt:
  assumes en: "enabled (providers s p)"
    and ms: "models_of s p st = [m]"
    and nm: "name m \<noteq> []"
    and act: "active_models (providers s p) st = None \<or> active_models (providers s p) st = Some (name m)"
    and fails: "always_fails_retryably env st p s"
  shows "fst (rotate_model p st (Some (name m)) s) = Some (name m)
     \<and> fst (execute_with_fallback p st (execute env st p) (max_retries_of st) s)
         = Inl (msg_all_attempts_failed p (max_retries_of st))
     \<and> attempts_on p (trace (snd (execute_with_fallback p st (execute env st p) (max_retries_of st) s)))
         = attempts_on p (trace s) + 1"
proof -
  obtain k where R: "max_retries_of st = Suc k" using max_retries_pos by blast
  let ?R = "max_retries_of st"
  let ?cur = "get_active_model s p st"
  have cur: "?cur = None \<or> ?cur = Some (name m)" using en act by (simp add: get_active_model_def)
  have rm: "run_model ?cur (models_of s p st) = name m"
    using cur ms nm by (auto simp: run_model_def)
  let ?sr = "run_state p st ?cur s"
  let ?s1 = "snd (execute env st p (name m) ?sr)"
  have ta: "try_attempt (execute env st p) p st ?cur s
      = (fst (execute env st p (name m) ?sr), Some (name m), ?s1)"
    using try_attempt_run [of ?cur s p st "execute env st p"] ms rm by simp
  have fr: "frame p st s ?sr" by (rule frame_run_state)
  have enr: "enabled (providers ?sr p)" using frame_enabled [OF fr] en by simp
  have f1: "frame p st s ?s1"
    using fr frame_execute [OF enr, of st env "name m"] by (rule frame_trans)
  have luma: "enabled (providers ?sr LUMA) = enabled (providers s LUMA)"
    using frame_enabled [OF fr] by simp
  from fails luma obtain e where e: "fst (execute env st p (name m) ?sr) = Inl e" and re: "retryable e"
    unfolding always_fails_retryably_def by blast
  have ms1: "models_of ?s1 p st = [m]" using frame_models_of [OF f1] ms by simp
  have rot: "rotate_model p st (Some (name m)) ?s1 = (Some (name m), set_active p st (name m) ?s1)"
    using rotate_model_single [OF ms1 nm] .
  have loop: "attempt_loop (execute env st p) p st ?R (Suc k) ?cur s
      = (Inl (msg_all_attempts_failed p ?R), set_active p st (name m) ?s1)"
    apply (subst attempt_loop.simps(2))
    apply (simp only: ta)
    using e re rot by (simp add: retryable_def del: attempt_loop.simps)
  have ewf: "execute_with_fallback p st (execute env st p) ?R s
      = (Inl (msg_all_attempts_failed p ?R), set_active p st (name m) ?s1)"
    using en loop R by (simp add: execute_with_fallback_def del: attempt_loop.simps)
  have cnt: "attempts_on p (trace (set_active p st (name m) ?s1)) = attempts_on p (trace s) + 1"
    by (simp add: attempts_on_execute attempts_on_run_state)
  have r0: "fst (rotate_model p st (Some (name m)) s) = Some (name m)"
    using rotate_model_single [OF ms nm] by simp
  show ?thesis using r0 ewf cnt by simp
qed



lemma retryable_quota_text: "retryable (''Google Gemini error: '' @ ''429 quota exceeded'')"
  by code_simp

lemma c1_env_always_fails: "always_fails_retryably c1_env CHAT GOOGLE s"
  unfolding always_fails_retryably_def
  using retryable_quota_text
  by (simp add: execute_chat_def chat_with_google_def remote_call_def c1_env_def quota_remote_def)


text \<open>The theorem at the manager of the concrete input.\<close>

theorem single_model_one_attempt_witness:
  "enabled (providers c1_state GOOGLE) \<and> models_of c1_state GOOGLE CHAT = [c1_model]
   \<and> name c1_model \<noteq> [] \<and> always_fails_retryably c1_env CHAT GOOGLE c1_state
   \<and> fst (rotate_model GOOGLE CHAT (Some (name c1_model)) c1_state) = Some (name c1_model)
   \<and> attempts_on GOOGLE
        (trace (snd (execute_with_fallback GOOGLE CHAT (execute c1_env CHAT GOOGLE)
                       (max_retries_of CHAT) c1_state)))
       = attempts_on GOOGLE (trace c1_state) + 1"
proof -
  have h1: "enabled (providers c1_state GOOGLE)" by code_simp
  have h2: "models_of c1_state GOOGLE CHAT = [c1_model]" by code_simp
  have h3: "name c1_model \<noteq> []" by (simp add: c1_model_def)
  have h4: "active_models (providers c1_state GOOGLE) CHAT = None
     \<or> active_models (providers c1_state GOOGLE) CHAT = Some (name c1_model)" by code_simp
  have h5: "always_fails_retryably c1_env CHAT GOOGLE c1_state" by (rule c1_env_always_fails)
  show ?thesis
    using single_model_one_attempt [OF h1 h2 h3 h4 h5] h1 h2 h3 h5 by simp
qed

text \<open>Claim C1 as stated fails: with one chat model and a quota error for every request,
  the chat entry point runs one attempt against Google, not sixteen.\<close>

theorem single_model_retry_counterexample:
  "models_of c1_state GOOGLE CHAT = [c1_model]
   \<and> remote c1_env [] GOOGLE (name c1_model) = Failed ''429 quota exceeded''
   \<and> is_quota_error ''Google Gemini error: 429 quota exceeded''
   \<and> max_retries_of CHAT = 16
   \<and> attempts_on GOOGLE
        (trace (snd (chat_with_ai c1_env 1 ''hello'' ''2026-11-04'' (new_manager c1_env Map.empty)))) = 1"
  by code_simp

section \<open>A backend that fails every call\<close>

lemma trace_record_error [simp]: "trace (record_error p e s) = trace s"
  by (simp add: record_error_def set_config_def)

lemma trace_record_usage [simp]: "trace (record_usage p s) = trace s"
  by (simp add: record_usage_def set_config_def)

lemma trace_update_user_usage [simp]: "trace (snd (update_user_usage env u d svc s)) = trace s"
  by (simp add: update_user_usage_def Let_def split: option.splits)






section \<open>A backend that fails with another error\<close>


lemma errors_today_record_error [simp]:
  "errors_today (providers (record_error p e s) p) = errors_today (providers s p) + 1"
  by (simp add: record_error_def set_config_def)

lemma last_error_record_error [simp]:
  "last_error (providers (record_error p e s) p) = Some e"
  by (simp add: record_error_def set_config_def)




section \<open>The quota cache\<close>












lemma stored_cache_update [simp]: "stored (s\<lparr>user_limits_cache := c\<rparr>) k = stored s k"
  by (simp add: stored_def)





lemma run_steps_frame:
  assumes "\<And>f s. f \<in> set steps \<Longrightarrow> P (f s) = P s"
  shows "P (run_steps flt k steps s) = P s"
  using assms by (induction steps arbitrary: k s) auto

lemma discovery_steps_quota:
  "user_limits_cache (setup_and_discover_google env s) = user_limits_cache s"
  "user_limits_cache (setup_and_discover_openai env s) = user_limits_cache s"
  "user_limits_cache (setup_other_apis s) = user_limits_cache s"
  "user_limits_cache (log_discovery_results s) = user_limits_cache s"
  "user_limits_cache (select_best_models s) = user_limits_cache s"
  "db_usage (setup_and_discover_google env s) = db_usage s"
  "db_usage (setup_and_discover_openai env s) = db_usage s"
  "db_usage (setup_other_apis s) = db_usage s"
  "db_usage (log_discovery_results s) = db_usage s"
  "db_usage (select_best_models s) = db_usage s"
  "trace (setup_and_discover_google env s) = trace s"
  "trace (setup_and_discover_openai env s) = trace s"
  "trace (setup_other_apis s) = trace s"
  "trace (log_discovery_results s) = trace s"
  "trace (select_best_models s) = trace s"
  by (simp_all add: setup_and_discover_google_def setup_and_discover_openai_def setup_other_apis_def
        setup_other_def log_discovery_results_def select_best_models_def set_config_def Let_def
        split: option.splits list.splits)

lemma ensure_discovery_quota [simp]:
  "user_limits_cache (ensure_discovery env s) = user_limits_cache s"
  "db_usage (ensure_discovery env s) = db_usage s"
  "trace (ensure_discovery env s) = trace s"
proof -
  have a: "user_limits_cache (setup_and_discover_async env s) = user_limits_cache s"
    unfolding setup_and_discover_async_def
    by (rule run_steps_frame) (auto simp: discovery_steps_quota)
  have b: "db_usage (setup_and_discover_async env s) = db_usage s"
    unfolding setup_and_discover_async_def
    by (rule run_steps_frame) (auto simp: discovery_steps_quota)
  have c: "trace (setup_and_discover_async env s) = trace s"
    unfolding setup_and_discover_async_def
    by (rule run_steps_frame) (auto simp: discovery_steps_quota)
  show "user_limits_cache (ensure_discovery env s) = user_limits_cache s"
    "db_usage (ensure_discovery env s) = db_usage s"
    "trace (ensure_discovery env s) = trace s"
    using a b c by (simp_all add: ensure_discovery_def)
qed

lemma quota_consistent_ensure_discovery [simp]:
  "quota_consistent (ensure_discovery env s) = quota_consistent s"
  by (simp add: quota_consistent_def stored_def)

lemma stored_ensure_discovery [simp]: "stored (ensure_discovery env s) k = stored s k"
  by (simp add: stored_def)





text \<open>
  Claim C10. When the durable store raises while \<open>check_user_limit\<close> hydrates the count
  of a key that is not in the cache, the check returns \<open>(True, 999)\<close> and leaves the
  state as it was; a request with valid input then goes on to provider selection
  instead of being refused.
\<close>

theorem quota_check_fails_open:
  assumes down: "db_down env = Some e"
    and miss: "map_of (user_limits_cache s) (u, d, svc) = None"
  shows "check_user_limit env u d svc s = ((True, 999), s)
     \<and> (svc = quota_service st \<and> 0 < u \<and> text \<noteq> [] \<and> min_length st \<le> length (strip text) \<longrightarrow>
          request env st u text d s = serve env st u d (ensure_discovery env s))"
proof -
  have c: "check_user_limit env u d svc s' = ((True, 999), s')"
    if "map_of (user_limits_cache s') (u, d, svc) = None" for s'
    using down that by (simp add: check_user_limit_def Let_def)
  have m: "map_of (user_limits_cache (ensure_discovery env s)) (u, d, svc) = None"
    using miss by simp
  have "request env st u text d s = serve env st u d (ensure_discovery env s)"
    if "svc = quota_service st" "0 < u" "text \<noteq> []" "min_length st \<le> length (strip text)"
    using that c [OF m] by (simp add: request_def Let_def)
  then show ?thesis using c [OF miss] by blast
qed

text \<open>The theorem at a fresh manager whose store is locked.\<close>

theorem quota_check_fails_open_witness:
  "db_down c10_env = Some ''database is locked''
   \<and> map_of (user_limits_cache (new_manager c10_env Map.empty)) (7, ''2026-11-04'', ''ai_chat'') = None
   \<and> check_user_limit c10_env 7 ''2026-11-04'' ''ai_chat'' (new_manager c10_env Map.empty)
       = ((True, 999), new_manager c10_env Map.empty)"
proof -
  have h1: "db_down c10_env = Some ''database is locked''" by (simp add: c10_env_def)
  have h2: "map_of (user_limits_cache (new_manager c10_env Map.empty)) (7, ''2026-11-04'', ''ai_chat'') = None"
    by (simp add: new_manager_def)
  show ?thesis
    using quota_check_fails_open [OF h1 h2] h1 h2 by blast
qed

section \<open>Discovery and ranking\<close>

lemma min_by_priority_least:
  "(\<forall>x\<in>set ms. priority best \<le> priority x) \<Longrightarrow> min_by_priority best ms = best"
  by (induction ms) auto

lemma min_by_priority_sorted:
  "sorted (map priority (m # ms)) \<Longrightarrow> min_by_priority m ms = m"
  by (rule min_by_priority_least) auto

lemma run_steps_no_fault:
  "run_steps None k steps s = foldl (\<lambda>s f. f s) s steps"
  by (induction steps arbitrary: k s) auto

lemma setup_and_discover_async_no_fault:
  "fault env = None \<Longrightarrow>
   setup_and_discover_async env s
     = select_best_models (log_discovery_results (setup_other_apis
         (setup_and_discover_openai env (setup_and_discover_google env s))))"
  by (simp add: setup_and_discover_async_def run_steps_no_fault)

lemma providers_setup_other:
  "providers (setup_other p s) q
     = (if q = p \<and> truthy (api_key (providers s p)) \<and> length (the (api_key (providers s p))) > 20
        then (providers s p)\<lparr>enabled := True\<rparr> else providers s q)"
  by (simp add: setup_other_def set_config_def Let_def)

lemma providers_setup_other_apis_main:
  "q = GOOGLE \<or> q = OPENAI \<Longrightarrow> providers (setup_other_apis s) q = providers s q"
  by (auto simp: setup_other_apis_def providers_setup_other)

lemma setup_other_apis_models:
  "discovered_models (providers (setup_other_apis s) q) = discovered_models (providers s q)"
  "active_models (providers (setup_other_apis s) q) = active_models (providers s q)"
  by (auto simp: setup_other_apis_def providers_setup_other)

lemma providers_google_other:
  "q \<noteq> GOOGLE \<Longrightarrow> providers (setup_and_discover_google env s) q = providers s q"
  by (auto simp: setup_and_discover_google_def set_config_def Let_def split: option.splits list.splits)

lemma providers_openai_other:
  "q \<noteq> OPENAI \<Longrightarrow> providers (setup_and_discover_openai env s) q = providers s q"
  by (auto simp: setup_and_discover_openai_def set_config_def Let_def split: option.splits)

lemma google_after_setup:
  assumes "providers s GOOGLE = init_providers env GOOGLE"
  shows "enabled (providers (setup_and_discover_google env s) GOOGLE)
     \<Longrightarrow> discovered_models (providers (setup_and_discover_google env s) GOOGLE)
           = (\<lambda>st. Some (ranked (classified_google env st)))
        \<and> active_models (providers (setup_and_discover_google env s) GOOGLE)
           = (\<lambda>st. if st = CHAT then top_name (ranked (classified_google env CHAT)) else None)"
  using assms
  by (auto simp: setup_and_discover_google_def set_config_def Let_def init_providers_def
        validate_key_def new_config_def ranked_def top_name_def fun_eq_iff
      split: option.splits list.splits if_splits)

lemma openai_after_setup:
  assumes "providers s OPENAI = init_providers env OPENAI"
  shows "enabled (providers (setup_and_discover_openai env s) OPENAI)
     \<Longrightarrow> discovered_models (providers (setup_and_discover_openai env s) OPENAI)
           = (\<lambda>st. Some (ranked (classified_openai st)))
        \<and> active_models (providers (setup_and_discover_openai env s) OPENAI) = Map.empty"
  using assms
  by (auto simp: setup_and_discover_openai_def set_config_def Let_def init_providers_def
        validate_key_def new_config_def ranked_def fun_eq_iff
      split: option.splits if_splits)

lemma init_models:
  "discovered_models (init_providers env p) = Map.empty"
  "active_models (init_providers env p) = Map.empty"
  by (simp_all add: init_providers_def validate_key_def new_config_def)

lemma select_best_ranked:
  assumes "enabled c" "discovered_models c = (\<lambda>st. Some (ranked (f st)))"
  shows "active_models (select_best c) st
     = (case ranked (f st) of [] \<Rightarrow> active_models c st | m # _ \<Rightarrow> Some (name m))"
proof (cases "ranked (f st)")
  case Nil
  then show ?thesis using assms by (simp add: select_best_def)
next
  case (Cons m ms)
  have "sorted (map priority (ranked (f st)))" by (simp add: ranked_def)
  then have "min_by_priority m ms = m" using Cons min_by_priority_sorted by simp
  then show ?thesis using assms Cons by (simp add: select_best_def)
qed

lemma select_best_frame:
  "enabled (select_best c) = enabled c" "discovered_models (select_best c) = discovered_models c"
  by (simp_all add: select_best_def)

lemma select_best_empty:
  "discovered_models c = Map.empty \<Longrightarrow> active_models (select_best c) = active_models c"
  by (simp add: select_best_def fun_eq_iff)

lemma discovered_after_discovery:
  assumes init: "providers s0 = init_providers env" and nf: "fault env = None"
    and fresh: "\<not> discovery_completed s0"
    and en: "enabled (providers (ensure_discovery env s0) p)"
  shows "models_of (ensure_discovery env s0) p st = ranked (discovery_order env p st)
     \<and> active_models (providers (ensure_discovery env s0) p) st
          = top_name (ranked (discovery_order env p st))"
proof -
  let ?g = "setup_and_discover_google env s0"
  let ?o = "setup_and_discover_openai env ?g"
  let ?x = "setup_other_apis ?o"
  have prov: "providers (ensure_discovery env s0) q = select_best (providers ?x q)" for q
    using fresh nf
    by (simp add: ensure_discovery_def setup_and_discover_async_no_fault select_best_models_def
          log_discovery_results_def)
  show ?thesis
  proof (cases "p = GOOGLE")
    case True
    have x: "providers ?x GOOGLE = providers ?g GOOGLE"
      by (simp add: providers_setup_other_apis_main providers_openai_other)
    have eg: "enabled (providers ?g GOOGLE)"
      using en True prov [of GOOGLE] x by (simp add: select_best_frame)
    have i: "providers s0 GOOGLE = init_providers env GOOGLE" using init by simp
    note g = google_after_setup [OF i eg]
    have dm: "discovered_models (providers ?g GOOGLE) = (\<lambda>st. Some (ranked (classified_google env st)))"
      using g by (rule conjunct1)
    have am: "active_models (providers ?g GOOGLE)
           = (\<lambda>st. if st = CHAT then top_name (ranked (classified_google env CHAT)) else None)"
      using g by (rule conjunct2)
    have m: "models_of (ensure_discovery env s0) GOOGLE st = ranked (classified_google env st)"
      using prov [of GOOGLE] x dm by (simp add: models_of_def select_best_frame)
    have a: "active_models (providers (ensure_discovery env s0) GOOGLE) st
          = top_name (ranked (classified_google env st))"
      using prov [of GOOGLE] x select_best_ranked [OF eg dm, of st] am
      by (auto simp: top_name_def split: list.splits)
    show ?thesis using True m a by simp
  next
    case notg: False
    show ?thesis
    proof (cases "p = OPENAI")
      case True
      have x: "providers ?x OPENAI = providers ?o OPENAI"
        by (simp add: providers_setup_other_apis_main)
      have eo: "enabled (providers ?o OPENAI)"
        using en True prov [of OPENAI] x by (simp add: select_best_frame)
      have i: "providers ?g OPENAI = init_providers env OPENAI"
        using init by (simp add: providers_google_other)
      note g = openai_after_setup [OF i eo]
      have dm: "discovered_models (providers ?o OPENAI) = (\<lambda>st. Some (ranked (classified_openai st)))"
        using g by (rule conjunct1)
      have am: "active_models (providers ?o OPENAI) = Map.empty"
        using g by (rule conjunct2)
      have m: "models_of (ensure_discovery env s0) OPENAI st = ranked (classified_openai st)"
        using prov [of OPENAI] x dm by (simp add: models_of_def select_best_frame)
      have a: "active_models (providers (ensure_discovery env s0) OPENAI) st
            = top_name (ranked (classified_openai st))"
        using prov [of OPENAI] x select_best_ranked [OF eo dm, of st] am
        by (auto simp: top_name_def split: list.splits)
      show ?thesis using True m a by simp
    next
      case False
      have o: "providers ?o p = init_providers env p"
        using init notg False by (simp add: providers_google_other providers_openai_other)
      have dm: "discovered_models (providers ?x p) = Map.empty"
        using o by (simp add: setup_other_apis_models init_models)
      have am: "active_models (providers ?x p) = Map.empty"
        using o by (simp add: setup_other_apis_models init_models)
      have m: "models_of (ensure_discovery env s0) p st = []"
        using prov [of p] dm by (simp add: models_of_def select_best_frame)
      have a: "active_models (providers (ensure_discovery env s0) p) st = None"
        using prov [of p] select_best_empty [OF dm] am by simp
      have d: "discovery_order env p st = []" using notg False by (cases p) auto
      show ?thesis using m a d by (simp add: ranked_def top_name_def)
    qed
  qed
qed

text \<open>
  Claim C7. After a discovery that ran to its end on a fresh manager, for every enabled
  backend and every capability: the list of discovered models is sorted ascending by
  priority; among equal priorities it keeps the order of discovery (the sort is
  stable); the active model is the first entry of the list, whose priority is the least
  of the list. Where the list is empty no model is active.
\<close>

theorem discovered_models_sorted_and_active:
  assumes init: "providers s0 = init_providers env" and nf: "fault env = None"
    and fresh: "\<not> discovery_completed s0"
    and en: "enabled (providers (ensure_discovery env s0) p)"
  shows "discovery_completed (ensure_discovery env s0)
     \<and> sorted (map priority (models_of (ensure_discovery env s0) p st))
     \<and> (\<forall>k. filter (\<lambda>m. priority m = k) (models_of (ensure_discovery env s0) p st)
             = filter (\<lambda>m. priority m = k) (discovery_order env p st))
     \<and> active_models (providers (ensure_discovery env s0) p) st
          = top_name (models_of (ensure_discovery env s0) p st)
     \<and> (\<forall>m\<in>set (models_of (ensure_discovery env s0) p st).
           priority (hd (models_of (ensure_discovery env s0) p st)) \<le> priority m)"
proof -
  let ?ms = "models_of (ensure_discovery env s0) p st"
  note d = discovered_after_discovery [OF init nf fresh en, of st]
  have m: "?ms = sort_key priority (discovery_order env p st)"
    using d by (simp add: ranked_def)
  have a: "active_models (providers (ensure_discovery env s0) p) st = top_name ?ms"
    using d by simp
  have s: "sorted (map priority ?ms)" unfolding m by simp
  have st: "\<forall>k. filter (\<lambda>m. priority m = k) ?ms = filter (\<lambda>m. priority m = k) (discovery_order env p st)"
    unfolding m by (simp add: sort_key_stable)
  have least: "\<forall>x\<in>set ?ms. priority (hd ?ms) \<le> priority x"
  proof (cases ?ms)
    case Nil
    then show ?thesis by simp
  next
    case (Cons m0 rest)
    then have "sorted (map priority (m0 # rest))" using s by simp
    then show ?thesis using Cons by auto
  qed
  have c: "discovery_completed (ensure_discovery env s0)"
    by (simp add: ensure_discovery_def)
  show ?thesis using c s st a least by blast
qed

text \<open>The theorem at the manager with Google's static list: the chat models in ranked
  order, and the active chat model.\<close>

theorem discovered_models_sorted_and_active_witness:
  "providers (new_manager c2_env Map.empty) = init_providers c2_env
   \<and> fault c2_env = None
   \<and> \<not> discovery_completed (new_manager c2_env Map.empty)
   \<and> enabled (providers c2_state GOOGLE)
   \<and> map name (models_of c2_state GOOGLE CHAT)
       = [''gemini-3-flash-preview'', ''gemini-3-pro-preview'', ''gemini-2.5-flash'',
          ''gemini-2.5-pro'', ''gemini-2.0-flash'']
   \<and> sorted (map priority (models_of c2_state GOOGLE CHAT))
   \<and> active_models (providers c2_state GOOGLE) CHAT = Some ''gemini-3-flash-preview''"
proof -
  have h1: "providers (new_manager c2_env Map.empty) = init_providers c2_env"
    by (simp add: new_manager_def)
  have h2: "fault c2_env = None" by (simp add: c2_env_def c1_env_def)
  have h3: "\<not> discovery_completed (new_manager c2_env Map.empty)" by (simp add: new_manager_def)
  have h4: "enabled (providers (ensure_discovery c2_env (new_manager c2_env Map.empty)) GOOGLE)"
    by code_simp
  note T = discovered_models_sorted_and_active [OF h1 h2 h3 h4, of CHAT]
  have n: "map name (models_of c2_state GOOGLE CHAT)
       = [''gemini-3-flash-preview'', ''gemini-3-pro-preview'', ''gemini-2.5-flash'',
          ''gemini-2.5-pro'', ''gemini-2.0-flash'']" by code_simp
  have s: "sorted (map priority (models_of c2_state GOOGLE CHAT))"
    using T by (simp add: c2_state_def)
  have "active_models (providers c2_state GOOGLE) CHAT = top_name (models_of c2_state GOOGLE CHAT)"
    using T by (simp add: c2_state_def)
  moreover have "top_name (models_of c2_state GOOGLE CHAT) = Some ''gemini-3-flash-preview''"
    by code_simp
  ultimately have a: "active_models (providers c2_state GOOGLE) CHAT = Some ''gemini-3-flash-preview''"
    by simp
  have e: "enabled (providers c2_state GOOGLE)" using h4 by (simp add: c2_state_def)
  show ?thesis using h1 h2 h3 e n s a by blast
qed

section \<open>Discovery failures and credentials\<close>

lemma run_steps_invariant:
  assumes "\<And>f s. f \<in> set steps \<Longrightarrow> I s \<Longrightarrow> I (f s)" "I s"
  shows "I (run_steps flt k steps s)"
  using assms by (induction steps arbitrary: k s) auto

lemma stays_disabled_steps:
  "stays_disabled p s \<Longrightarrow> stays_disabled p (setup_and_discover_google env s)"
  "stays_disabled p s \<Longrightarrow> stays_disabled p (setup_and_discover_openai env s)"
  "stays_disabled p s \<Longrightarrow> stays_disabled p (setup_other_apis s)"
  "stays_disabled p s \<Longrightarrow> stays_disabled p (log_discovery_results s)"
  "stays_disabled p s \<Longrightarrow> stays_disabled p (select_best_models s)"
proof -
  assume a: "stays_disabled p s"
  show "stays_disabled p (setup_and_discover_google env s)"
  proof (cases "p = GOOGLE")
    case True
    then have "\<not> truthy (api_key (providers s GOOGLE))" using a by (simp add: stays_disabled_def)
    then have "setup_and_discover_google env s = s" by (simp add: setup_and_discover_google_def)
    then show ?thesis using a by simp
  next
    case False
    then show ?thesis using a by (simp add: stays_disabled_def providers_google_other)
  qed
next
  assume a: "stays_disabled p s"
  show "stays_disabled p (setup_and_discover_openai env s)"
  proof (cases "p = OPENAI")
    case True
    then have "\<not> truthy (api_key (providers s OPENAI))" using a by (simp add: stays_disabled_def)
    then have "setup_and_discover_openai env s = s" by (simp add: setup_and_discover_openai_def)
    then show ?thesis using a by simp
  next
    case False
    then show ?thesis using a by (simp add: stays_disabled_def providers_openai_other)
  qed
next
  assume a: "stays_disabled p s"
  show "stays_disabled p (setup_other_apis s)"
    using a by (auto simp: stays_disabled_def setup_other_apis_def providers_setup_other)
next
  assume a: "stays_disabled p s"
  show "stays_disabled p (log_discovery_results s)"
    using a by (simp add: log_discovery_results_def)
next
  assume a: "stays_disabled p s"
  show "stays_disabled p (select_best_models s)"
    using a by (simp add: stays_disabled_def select_best_models_def select_best_def)
qed

lemma stays_disabled_discovery:
  assumes "stays_disabled p s"
  shows "\<not> enabled (providers (ensure_discovery env s) p)"
proof -
  have "stays_disabled p (setup_and_discover_async env s)"
    unfolding setup_and_discover_async_def
    by (rule run_steps_invariant [where I = "stays_disabled p"])
       (auto simp: stays_disabled_steps assms)
  then show ?thesis using assms by (simp add: ensure_discovery_def stays_disabled_def)
qed

lemma init_providers_fields:
  "\<not> enabled (init_providers env p)"
  "api_key (init_providers env p) = api_key_env env p"
  "cfg_name (init_providers env p) = p"
  by (simp_all add: init_providers_def validate_key_def new_config_def)

lemma available_enabled:
  "c \<in> set (get_available_providers s st) \<Longrightarrow> \<exists>q. c = providers s q \<and> enabled (providers s q)"
  by (auto simp: get_available_providers_def is_available_def)

lemma disabled_not_available:
  assumes "well_formed s" "\<not> enabled (providers s q)"
  shows "q \<notin> cfg_name ` set (get_available_providers s st)"
proof
  assume "q \<in> cfg_name ` set (get_available_providers s st)"
  then obtain c where c: "c \<in> set (get_available_providers s st)" and n: "cfg_name c = q" by auto
  from available_enabled [OF c] obtain r where r: "c = providers s r" "enabled (providers s r)" by blast
  then have "q = r" using n assms(1) by (simp add: well_formed_def)
  then show False using r assms(2) by simp
qed







lemma enabled_after_discovery:
  assumes nf: "fault env = None" and fresh: "\<not> discovery_completed s0"
  shows "enabled (providers (ensure_discovery env s0) GOOGLE)
           = enabled (providers (setup_and_discover_google env s0) GOOGLE)"
    and "enabled (providers (ensure_discovery env s0) OPENAI)
           = enabled (providers (setup_and_discover_openai env (setup_and_discover_google env s0)) OPENAI)"
  using nf fresh
  by (simp_all add: ensure_discovery_def setup_and_discover_async_no_fault select_best_models_def
        log_discovery_results_def select_best_frame providers_setup_other_apis_main
        providers_openai_other)

lemma google_enabled_by_setup:
  assumes "api_key (providers s GOOGLE) = Some key" "key \<noteq> []" "google_configure env = None"
  shows "enabled (providers (setup_and_discover_google env s) GOOGLE)"
  using assms
  by (simp add: setup_and_discover_google_def set_config_def Let_def split: list.splits)

lemma openai_enabled_by_setup:
  assumes "api_key (providers s OPENAI) = Some key" "key \<noteq> []" "openai_client env = None"
  shows "enabled (providers (setup_and_discover_openai env s) OPENAI)"
  using assms
  by (simp add: setup_and_discover_openai_def set_config_def Let_def)

text \<open>
  Claim C4, as amended. At construction every backend is disabled. A backend whose
  credential is missing or empty stays disabled through discovery, and so does a
  Stability, Luma or Kling backend whose credential has at most 20 characters. The
  prefix of a credential is not part of the validation: discovery only logs a warning
  for a Google key that does not start with "AI" or an OpenAI key that does not start
  with "sk-", and enables a Google or OpenAI backend with a credential of at least 10
  characters whatever its prefix (provided the client is set up without an exception).
  A backend that is disabled when providers are selected is not in the selection.
\<close>

theorem credential_validation:
  assumes init: "providers s0 = init_providers env" and fresh: "\<not> discovery_completed s0"
  shows "\<not> enabled (providers s0 p)
     \<and> (\<not> truthy (api_key_env env p) \<longrightarrow> \<not> enabled (providers (ensure_discovery env s0) p))
     \<and> (p \<in> {STABILITY, LUMA, KLING} \<and> length (the (api_key_env env p)) \<le> 20 \<longrightarrow>
          \<not> enabled (providers (ensure_discovery env s0) p))
     \<and> (fault env = None \<and> google_configure env = None \<and> api_key_env env GOOGLE = Some key
          \<and> 10 \<le> length key \<longrightarrow> enabled (providers (ensure_discovery env s0) GOOGLE))
     \<and> (fault env = None \<and> openai_client env = None \<and> api_key_env env OPENAI = Some key
          \<and> 10 \<le> length key \<longrightarrow> enabled (providers (ensure_discovery env s0) OPENAI))
     \<and> (well_formed s \<and> \<not> enabled (providers s p) \<longrightarrow>
          p \<notin> cfg_name ` set (get_available_providers s st))"
proof -
  have a: "\<not> enabled (providers s0 p)" using init by (simp add: init_providers_fields)
  have k: "api_key (providers s0 q) = api_key_env env q" for q
    using init by (simp add: init_providers_fields)
  have b: "\<not> enabled (providers (ensure_discovery env s0) p)" if "\<not> truthy (api_key_env env p)"
    by (rule stays_disabled_discovery) (use that a k in \<open>simp add: stays_disabled_def\<close>)
  have c: "\<not> enabled (providers (ensure_discovery env s0) p)"
    if "p \<in> {STABILITY, LUMA, KLING}" "length (the (api_key_env env p)) \<le> 20"
    by (rule stays_disabled_discovery) (use that a k in \<open>simp add: stays_disabled_def\<close>)
  have d: "enabled (providers (ensure_discovery env s0) GOOGLE)"
    if "fault env = None" "google_configure env = None" "api_key_env env GOOGLE = Some key"
      "10 \<le> length key"
  proof -
    have "key \<noteq> []" using that(4) by auto
    then have "enabled (providers (setup_and_discover_google env s0) GOOGLE)"
      using google_enabled_by_setup [of s0 key env] k [of GOOGLE] that by simp
    then show ?thesis using enabled_after_discovery(1) [OF that(1) fresh] by simp
  qed
  have e: "enabled (providers (ensure_discovery env s0) OPENAI)"
    if "fault env = None" "openai_client env = None" "api_key_env env OPENAI = Some key"
      "10 \<le> length key"
  proof -
    have ne: "key \<noteq> []" using that(4) by auto
    have "api_key (providers (setup_and_discover_google env s0) OPENAI) = Some key"
      using k [of OPENAI] that(3) by (simp add: providers_google_other)
    then have "enabled (providers (setup_and_discover_openai env (setup_and_discover_google env s0)) OPENAI)"
      using ne that(2) by (rule openai_enabled_by_setup)
    then show ?thesis using enabled_after_discovery(2) [OF that(1) fresh] by simp
  qed
  have f: "p \<notin> cfg_name ` set (get_available_providers s st)"
    if "well_formed s" "\<not> enabled (providers s p)"
    using that by (rule disabled_not_available)
  show ?thesis using a b c d e f by blast
qed

text \<open>The theorem at a manager with a Google and an OpenAI key of twelve characters and
  unexpected prefixes, a Stability key of twelve characters, no Luma key and an empty
  Kling key.\<close>

theorem credential_validation_witness:
  "providers (new_manager c4_env Map.empty) = init_providers c4_env
   \<and> \<not> discovery_completed (new_manager c4_env Map.empty)
   \<and> \<not> truthy (api_key_env c4_env LUMA)
   \<and> \<not> enabled (providers c4_state LUMA)
   \<and> enabled (providers c4_state GOOGLE)
   \<and> map cfg_name (get_available_providers c4_state IMAGE) = [GOOGLE, OPENAI]"
proof -
  have h1: "providers (new_manager c4_env Map.empty) = init_providers c4_env"
    by (simp add: new_manager_def)
  have h2: "\<not> discovery_completed (new_manager c4_env Map.empty)" by (simp add: new_manager_def)
  have h3: "\<not> truthy (api_key_env c4_env LUMA)" by (simp add: c4_env_def)
  have h4: "fault c4_env = None \<and> google_configure c4_env = None
      \<and> api_key_env c4_env GOOGLE = Some ''XXXXXXXXXXXX'' \<and> 10 \<le> length ''XXXXXXXXXXXX''"
    by (simp add: c4_env_def c1_env_def)
  have a: "\<not> enabled (providers c4_state LUMA)"
    using credential_validation [OF h1 h2, of LUMA] h3 unfolding c4_state_def by blast
  have b: "enabled (providers c4_state GOOGLE)"
    using credential_validation [OF h1 h2, of GOOGLE "''XXXXXXXXXXXX''"] h4 unfolding c4_state_def
    by blast
  have c: "map cfg_name (get_available_providers c4_state IMAGE) = [GOOGLE, OPENAI]" by code_simp
  show ?thesis using h1 h2 h3 a b c by blast
qed

text \<open>Claim C4 as stated fails: keys that do not match the expected prefixes leave Google
  and OpenAI enabled after discovery and selected for chat.\<close>

theorem prefix_not_enforced_counterexample:
  "api_key_env c4_env GOOGLE = Some ''XXXXXXXXXXXX''
   \<and> \<not> startswith ''XXXXXXXXXXXX'' ''AI''
   \<and> api_key_env c4_env OPENAI = Some ''YYYYYYYYYYYY''
   \<and> \<not> startswith ''YYYYYYYYYYYY'' ''sk-''
   \<and> enabled (providers c4_state GOOGLE)
   \<and> enabled (providers c4_state OPENAI)
   \<and> map cfg_name (get_available_providers c4_state CHAT) = [GOOGLE, OPENAI]"
  by code_simp

end
